theory Spec2Isabelle
  imports Main "HOL-Library.Sublist"
begin

section \<open>Python string primitives used by \<^verbatim>\<open>utils/patterns.py\<close>\<close>

text \<open>
  A Python \<^verbatim>\<open>str\<close> is a sequence of code points. The model uses \<^typ>\<open>string\<close>, the
  lists of \<^typ>\<open>char\<close>, for the code points below 256; every character the pattern engine
  treats specially (braces, colon, dot, underscore, digits, the nine characters the sanitizer
  replaces) lies in that range, and all other characters are only copied.
\<close>

text \<open>\<^verbatim>\<open>s.replace(old, new)\<close>: every non-overlapping occurrence, from the left.\<close>

function py_replace :: "string \<Rightarrow> string \<Rightarrow> string \<Rightarrow> string" where
  "py_replace old new [] = (if old = [] then new else [])"
| "py_replace old new (c # cs) =
     (if old = [] then new @ c # py_replace old new cs
      else if prefix old (c # cs) then new @ py_replace old new (drop (length old) (c # cs))
      else c # py_replace old new cs)"
  by pat_completeness auto
termination
  by (relation "measure (\<lambda>(old, new, s). length s)") auto

text \<open>\<^verbatim>\<open>sub in s\<close>.\<close>

fun py_in :: "string \<Rightarrow> string \<Rightarrow> bool" where
  "py_in sub [] = (sub = [])"
| "py_in sub (c # cs) = (prefix sub (c # cs) \<or> py_in sub cs)"

text \<open>\<^verbatim>\<open>s.strip(chars)\<close> and \<^verbatim>\<open>s.strip()\<close>, the set of stripped characters given as a
  predicate.\<close>

definition py_strip :: "(char \<Rightarrow> bool) \<Rightarrow> string \<Rightarrow> string" where
  "py_strip P s = rev (dropWhile P (rev (dropWhile P s)))"

text \<open>\<^verbatim>\<open>str.isspace\<close> on the code points below 256.\<close>

definition py_isspace :: "char \<Rightarrow> bool" where
  "py_isspace c = ((of_char c :: nat) \<in> set [9, 10, 11, 12, 13, 28, 29, 30, 31, 32, 133, 160])"

text \<open>The regular expression class \<^verbatim>\<open>\d\<close> on the code points below 256.\<close>

definition py_isdigit :: "char \<Rightarrow> bool" where
  "py_isdigit c = (48 \<le> (of_char c :: nat) \<and> (of_char c :: nat) \<le> 57)"

text \<open>\<^verbatim>\<open>s.split(sep)\<close> for a separator of one character.\<close>

function py_split :: "char \<Rightarrow> string \<Rightarrow> string list" where
  "py_split sep s =
     (case dropWhile (\<lambda>c. c \<noteq> sep) s of
        [] \<Rightarrow> [takeWhile (\<lambda>c. c \<noteq> sep) s]
      | _ # rest \<Rightarrow> takeWhile (\<lambda>c. c \<noteq> sep) s # py_split sep rest)"
  by pat_completeness auto
termination
  apply (relation "measure (\<lambda>(sep, s). length s)")
   apply simp
  subgoal for sep s x rest
    using length_dropWhile_le [of "\<lambda>c. c \<noteq> sep" s] by simp
  done

declare py_split.simps [simp del]

text \<open>\<^verbatim>\<open>sep.join(parts)\<close>.\<close>

fun py_join :: "string \<Rightarrow> string list \<Rightarrow> string" where
  "py_join sep [] = []"
| "py_join sep [x] = x"
| "py_join sep (x # y # ys) = x @ sep @ py_join sep (y # ys)"

text \<open>\<^verbatim>\<open>str(n)\<close> for an integer: decimal digits, a minus sign for negative numbers.\<close>

definition digit_char :: "int \<Rightarrow> char" where
  "digit_char d = char_of (48 + d)"

function str_digits :: "int \<Rightarrow> string" where
  "str_digits n =
     (if n < 10 then [digit_char n] else str_digits (n div 10) @ [digit_char (n mod 10)])"
  by pat_completeness auto
termination
  by (relation "measure nat") auto

declare str_digits.simps [simp del]

definition str_int :: "int \<Rightarrow> string" where
  "str_int i = (if i < 0 then ''-'' @ str_digits (- i) else str_digits i)"

text \<open>\<^verbatim>\<open>s.zfill(w)\<close> and \<^verbatim>\<open>s.rjust(w)\<close> on digit strings (the padding of
  \<^verbatim>\<open>strftime\<close> fields and of a width-only format spec).\<close>

definition zfill :: "nat \<Rightarrow> string \<Rightarrow> string" where
  "zfill w s = replicate (w - length s) CHR ''0'' @ s"

definition rjust :: "nat \<Rightarrow> string \<Rightarrow> string" where
  "rjust w s = replicate (w - length s) CHR '' '' @ s"

datatype py_error = ValueError | IndexError | OverflowError | TypeError

section \<open>Extension splitting\<close>

text \<open>
  \<^verbatim>\<open>_remove_extension\<close> and \<^verbatim>\<open>_get_extension\<close> (patterns.py, lines 239-255). The
  \<^verbatim>\<open>except\<close> branch of \<^verbatim>\<open>_get_extension\<close> returns the empty string; it would be taken
  by \<^verbatim>\<open>[-1]\<close> on an empty list.
\<close>

definition remove_extension :: "string \<Rightarrow> string" where
  "remove_extension filename =
     (if py_in ''.'' filename then py_join ''.'' (butlast (py_split CHR ''.'' filename))
      else filename)"

definition get_extension :: "string \<Rightarrow> string" where
  "get_extension filename =
     (if py_in ''.'' filename
      then (case py_split CHR ''.'' filename of [] \<Rightarrow> [] | p # ps \<Rightarrow> ''.'' @ last (p # ps))
      else [])"

section \<open>The filename sanitizer\<close>

definition invalid_chars :: "char list" where
  "invalid_chars = [CHR ''/'', CHR 0x5C, CHR '':'', CHR ''*'', CHR ''?'', CHR 0x22,
     CHR ''<'', CHR ''>'', CHR ''|'']"

text \<open>The loop \<^verbatim>\<open>while '__' in cleaned: cleaned = cleaned.replace('__', '_')\<close>. Each round
  shortens the string, which is the termination argument.\<close>

function collapse_underscores :: "string \<Rightarrow> string" where
  "collapse_underscores s =
     (if py_in ''__'' s then collapse_underscores (py_replace ''__'' ''_'' s) else s)"
  by pat_completeness auto
termination
proof (relation "measure length")
  show "wf (measure length)" by simp
next
  fix s :: string
  assume hit: "py_in ''__'' s"
  have le: "length (py_replace ''__'' ''_'' t) \<le> length t" for t
  proof (induction t rule: length_induct)
    case (1 t)
    show ?case
    proof (cases t)
      case Nil
      then show ?thesis by simp
    next
      case (Cons c cs)
      show ?thesis
      proof (cases "prefix ''__'' t")
        case True
        then obtain r where r: "t = ''__'' @ r" by (auto simp: prefix_def)
        then have "length (py_replace ''__'' ''_'' r) \<le> length r" using 1 by simp
        then show ?thesis using r by simp
      next
        case False
        have "length (py_replace ''__'' ''_'' cs) \<le> length cs" using 1 Cons by simp
        then show ?thesis using False Cons by auto
      qed
    qed
  qed
  have less: "py_in ''__'' t \<Longrightarrow> length (py_replace ''__'' ''_'' t) < length t" for t
  proof (induction t)
    case Nil
    then show ?case by simp
  next
    case (Cons c cs)
    show ?case
    proof (cases "prefix ''__'' (c # cs)")
      case True
      then obtain r where r: "c # cs = ''__'' @ r" by (auto simp: prefix_def)
      have "length (py_replace ''__'' ''_'' r) \<le> length r" by (rule le)
      then show ?thesis using r by simp
    next
      case False
      then show ?thesis using Cons by auto
    qed
  qed
  show "(py_replace ''__'' ''_'' s, s) \<in> measure length"
    using less [OF hit] by simp
qed

declare collapse_underscores.simps [simp del]

text \<open>\<^verbatim>\<open>_clean_filename\<close> (lines 257-282). No statement of its \<^verbatim>\<open>try\<close> block raises
  on a string, so the \<^verbatim>\<open>except\<close> branch is not part of the model.\<close>

definition clean_filename :: "string \<Rightarrow> string" where
  "clean_filename filename =
     (let cleaned = foldl (\<lambda>s c. py_replace [c] ''_'' s) filename invalid_chars;
          cleaned = collapse_underscores cleaned;
          cleaned = py_strip (\<lambda>c. c = CHR ''_'') cleaned
      in if cleaned = [] then ''renamed_file'' else cleaned)"

section \<open>Numbers: conversion to float and fixed-point formatting\<close>

text \<open>
  The sizes are Python integers; \<^verbatim>\<open>_format_size\<close> divides them by the float
  \<^verbatim>\<open>1024.0\<close> and formats with \<^verbatim>\<open>.0f\<close> and \<^verbatim>\<open>.1f\<close>. Every float that
  arises is an integer that fits a double, divided by a power of two, so it is modelled
  exactly, as a numerator and a denominator. The conversion of an integer to a double
  rounds to 53 significant bits, ties to even, and raises \<^verbatim>\<open>OverflowError\<close> when the
  rounded magnitude reaches the given power of two (\<open>2 ^ 1024\<close> for \<^verbatim>\<open>float(n)\<close>).
\<close>

function bit_length :: "int \<Rightarrow> nat" where
  "bit_length n = (if n \<le> 0 then 0 else Suc (bit_length (n div 2)))"
  by pat_completeness auto
termination
  by (relation "measure nat") auto

declare bit_length.simps [simp del]

definition round_half_even :: "int \<Rightarrow> int \<Rightarrow> int" where
  "round_half_even a b =
     (let q = a div b; r = a mod b
      in if 2 * r < b then q else if b < 2 * r then q + 1 else if even q then q else q + 1)"

definition round_to_double :: "nat \<Rightarrow> int \<Rightarrow> py_error + int" where
  "round_to_double lim n =
     (let a = \<bar>n\<bar>;
          e = bit_length a - 53;
          m = round_half_even a (2 ^ e) * 2 ^ e
      in if 2 ^ lim \<le> m then Inl OverflowError else Inr (sgn n * m))"

text \<open>A number held by the variable \<^verbatim>\<open>size_bytes\<close>: the integer passed in, or the float
  \<open>m / d\<close> after a division.\<close>

datatype py_num = PyInt int | PyFloat int int

text \<open>The format specs \<^verbatim>\<open>.0f\<close> and \<^verbatim>\<open>.1f\<close> applied to the exact value \<open>m / d\<close>:
  correctly rounded, ties to even, the sign of a negative value kept.\<close>

definition py_fixed :: "nat \<Rightarrow> int \<Rightarrow> int \<Rightarrow> string" where
  "py_fixed k m d =
     (let s = round_half_even (\<bar>m\<bar> * 10 ^ k) d
      in (if m < 0 then ''-'' else []) @ str_digits (s div 10 ^ k) @
         (if k = 0 then [] else ''.'' @ zfill k (str_digits (s mod 10 ^ k))))"

fun format_f :: "nat \<Rightarrow> py_num \<Rightarrow> py_error + string" where
  "format_f k (PyInt n) =
     (case round_to_double 1024 n of Inl err \<Rightarrow> Inl err | Inr m \<Rightarrow> Inr (py_fixed k m 1))"
| "format_f k (PyFloat m d) = Inr (py_fixed k m d)"

fun lt_1024 :: "py_num \<Rightarrow> bool" where
  "lt_1024 (PyInt n) = (n < 1024)"
| "lt_1024 (PyFloat m d) = (m < 1024 * d)"

fun div_1024 :: "py_num \<Rightarrow> py_error + py_num" where
  "div_1024 (PyInt n) =
     (case round_to_double 1024 n of Inl err \<Rightarrow> Inl err | Inr m \<Rightarrow> Inr (PyFloat m 1024))"
| "div_1024 (PyFloat m d) = Inr (PyFloat m (d * 1024))"

text \<open>\<^verbatim>\<open>_format_size\<close> (lines 284-294): the loop over the four units, then the
  \<^verbatim>\<open>TB\<close> line after it. The function has no \<^verbatim>\<open>try\<close>; an \<^verbatim>\<open>OverflowError\<close> of
  the conversion leaves it.\<close>

fun format_size_loop :: "string list \<Rightarrow> py_num \<Rightarrow> py_error + string" where
  "format_size_loop [] x =
     (case format_f 1 x of Inl err \<Rightarrow> Inl err | Inr t \<Rightarrow> Inr (t @ ''TB''))"
| "format_size_loop (unit # units) x =
     (if lt_1024 x
      then (case format_f 0 x of Inl err \<Rightarrow> Inl err | Inr t \<Rightarrow> Inr (t @ unit))
      else (case div_1024 x of Inl err \<Rightarrow> Inl err | Inr y \<Rightarrow> format_size_loop units y))"

definition format_size :: "int \<Rightarrow> py_error + string" where
  "format_size size_bytes =
     (if size_bytes = 0 then Inr ''0B''
      else format_size_loop [''B'', ''KB'', ''MB'', ''GB''] (PyInt size_bytes))"

text \<open>The context value \<^verbatim>\<open>size_mb\<close> (line 97): the true division of two integers,
  \<^verbatim>\<open>size / (1024*1024)\<close>, is the correctly rounded quotient, which overflows at
  \<open>2 ^ 1024\<close>, that is when the rounded numerator reaches \<open>2 ^ 1044\<close>.\<close>

definition size_mb :: "int \<Rightarrow> py_error + string" where
  "size_mb n =
     (case round_to_double 1044 n of Inl err \<Rightarrow> Inl err
      | Inr m \<Rightarrow> Inr (py_fixed 1 m (1024 * 1024)))"

section \<open>The database collaborator (\<^verbatim>\<open>database.py\<close>)\<close>

text \<open>
  A row of the \<^verbatim>\<open>users\<close> table, as far as the pattern engine reads it. A column that is
  \<^verbatim>\<open>NULL\<close> reads as Python's \<^verbatim>\<open>None\<close>. The \<^verbatim>\<open>preferences\<close> column holds a JSON
  object; it is modelled by the dictionary that \<^verbatim>\<open>json.loads\<close> returns, with the integer
  values that the counters store.
\<close>

record user_row =
  first_name :: "string option"
  username :: "string option"
  preferences :: "string \<rightharpoonup> int"

type_synonym database = "int \<rightharpoonup> user_row"

text \<open>
  \<^verbatim>\<open>self.lock\<close> is a \<^verbatim>\<open>threading.Lock\<close> (database.py, line 21), which is not
  reentrant: a thread that enters \<^verbatim>\<open>with self.lock\<close> while it holds the lock waits
  forever. The model is of one thread. A call that never returns has the value \<open>None\<close>, and
  \<open>held\<close> says whether the caller holds the lock when the block is entered.
\<close>

definition with_lock :: "bool \<Rightarrow> 'a \<Rightarrow> 'a option" where
  "with_lock held body = (if held then None else Some body)"

text \<open>\<^verbatim>\<open>get_user\<close> (lines 194-207): the row, or Python's \<^verbatim>\<open>None\<close> for a user without
  one, read inside \<^verbatim>\<open>with self.lock\<close>.\<close>

definition get_user :: "bool \<Rightarrow> database \<Rightarrow> int \<Rightarrow> user_row option option" where
  "get_user held d user_id = with_lock held (d user_id)"

text \<open>\<^verbatim>\<open>set_user_preference\<close> (lines 224-244), entered with the lock free: it takes the
  lock (line 227) and inside the block calls \<^verbatim>\<open>get_user\<close> (line 228), which takes it
  again. For a user without a row it would write nothing and return \<^verbatim>\<open>False\<close>; its
  callers here ignore the returned flag.\<close>

definition set_user_preference :: "database \<Rightarrow> int \<Rightarrow> string \<Rightarrow> int \<Rightarrow> database option" where
  "set_user_preference d user_id key v =
     (case with_lock False (get_user True d user_id) of
        None \<Rightarrow> None
      | Some None \<Rightarrow> None
      | Some (Some None) \<Rightarrow> Some d
      | Some (Some (Some user)) \<Rightarrow>
          Some (d(user_id \<mapsto> user\<lparr>preferences := (preferences user)(key \<mapsto> v)\<rparr>)))"

text \<open>\<^verbatim>\<open>get_user_preference\<close> (lines 246-258) takes no lock of its own and calls
  \<^verbatim>\<open>get_user\<close> with the lock free.\<close>

definition get_user_preference :: "database \<Rightarrow> int \<Rightarrow> string \<Rightarrow> int \<Rightarrow> int option" where
  "get_user_preference d user_id key dflt =
     (case get_user False d user_id of
        None \<Rightarrow> None
      | Some None \<Rightarrow> Some dflt
      | Some (Some user) \<Rightarrow> Some (case preferences user key of None \<Rightarrow> dflt | Some v \<Rightarrow> v))"

section \<open>The counter store\<close>

text \<open>
  The mutable state of a \<^verbatim>\<open>PatternManager\<close>: the cache \<^verbatim>\<open>self.user_counters\<close> and the
  database behind \<^verbatim>\<open>self.db\<close>. Python's \<^verbatim>\<open>hash\<close> of a string is fixed within a process
  and otherwise arbitrary; it is the parameter \<open>H\<close> of every function that builds a key.
\<close>

record pattern_manager =
  user_counters :: "string \<rightharpoonup> int"
  db :: database

definition cache_key :: "(string \<Rightarrow> int) \<Rightarrow> int \<Rightarrow> string \<Rightarrow> string" where
  "cache_key H user_id pattern = str_int user_id @ ''_'' @ str_int (H pattern)"

definition pref_key :: "(string \<Rightarrow> int) \<Rightarrow> string \<Rightarrow> string" where
  "pref_key H pattern = ''counter_'' @ str_int (H pattern)"

text \<open>\<^verbatim>\<open>_get_counter\<close> (lines 194-208): the value, and the manager with the cache filled
  on a miss. The database functions catch their own exceptions and the keys are built from
  integers, so the handler that returns 1 is not reached.\<close>

definition get_counter ::
  "(string \<Rightarrow> int) \<Rightarrow> pattern_manager \<Rightarrow> int \<Rightarrow> string \<Rightarrow> (int \<times> pattern_manager) option" where
  "get_counter H pm user_id pattern =
     (case user_counters pm (cache_key H user_id pattern) of
        Some v \<Rightarrow> Some (v, pm)
      | None \<Rightarrow>
          (case get_user_preference (db pm) user_id (pref_key H pattern) 1 of
             None \<Rightarrow> None
           | Some counter_value \<Rightarrow>
               Some (counter_value,
                     pm\<lparr>user_counters :=
                       (user_counters pm)(cache_key H user_id pattern \<mapsto> counter_value)\<rparr>)))"

text \<open>\<^verbatim>\<open>_increment_counter\<close> (lines 210-221): the cache is written first (line 217), then
  the database (line 218).\<close>

definition increment_counter ::
  "(string \<Rightarrow> int) \<Rightarrow> pattern_manager \<Rightarrow> int \<Rightarrow> string \<Rightarrow> pattern_manager option" where
  "increment_counter H pm user_id pattern =
     (case get_counter H pm user_id pattern of
        None \<Rightarrow> None
      | Some (current_value, pm1) \<Rightarrow>
          (let new_value = current_value + 1;
               pm2 = pm1\<lparr>user_counters :=
                       (user_counters pm1)(cache_key H user_id pattern \<mapsto> new_value)\<rparr>
           in case set_user_preference (db pm2) user_id (pref_key H pattern) new_value of
                None \<Rightarrow> None
              | Some d \<Rightarrow> Some (pm2\<lparr>db := d\<rparr>)))"

section \<open>What a render reads from outside\<close>

record py_datetime =
  dt_year :: int
  dt_month :: int
  dt_day :: int
  dt_hour :: int
  dt_minute :: int
  dt_second :: int
  dt_timestamp :: int

text \<open>
  The clock is read once at the start of a render and once more in the fallback branch; its
  fields are written as \<^verbatim>\<open>strftime\<close> writes them for a year of four digits, padded
  with zeros. The random digits come from a tape, read from position 0 on in each render; the
  eight characters of the unique identifier are given as they are. \<open>format_other\<close>
  stands for Python's built-in \<^verbatim>\<open>format(value, spec)\<close> of an integer on the
  one-character specs that \<open>py_format_int\<close> below does not spell out.
\<close>

record render_env =
  now :: py_datetime
  now_fallback :: py_datetime
  uuid8 :: string
  random_tape :: "nat \<Rightarrow> int"
  format_other :: "int \<Rightarrow> char \<Rightarrow> py_error + string"

definition strftime_date :: "py_datetime \<Rightarrow> string" where
  "strftime_date t =
     zfill 4 (str_int (dt_year t)) @ zfill 2 (str_int (dt_month t)) @ zfill 2 (str_int (dt_day t))"

definition strftime_time :: "py_datetime \<Rightarrow> string" where
  "strftime_time t =
     zfill 2 (str_int (dt_hour t)) @ zfill 2 (str_int (dt_minute t)) @
     zfill 2 (str_int (dt_second t))"

definition strftime_datetime :: "py_datetime \<Rightarrow> string" where
  "strftime_datetime t = strftime_date t @ ''_'' @ strftime_time t"

text \<open>\<^verbatim>\<open>_generate_random_number\<close> (lines 223-229): \<open>len\<close> digits from position \<open>pos\<close>
  of the tape, and the next position.\<close>

definition generate_random_number :: "(nat \<Rightarrow> int) \<Rightarrow> nat \<Rightarrow> nat \<Rightarrow> string \<times> nat" where
  "generate_random_number tape pos len =
     (map (\<lambda>i. digit_char (tape (pos + i) mod 10)) [0..<len], pos + len)"

text \<open>\<^verbatim>\<open>f"{counter_value:{c}}"\<close> for a spec \<open>c\<close> of one character: \<^verbatim>\<open>d\<close> and
  \<^verbatim>\<open>0\<close> give the decimal digits, a digit from 1 to 9 is a width and pads with spaces on
  the left.\<close>

definition py_format_int ::
  "(int \<Rightarrow> char \<Rightarrow> py_error + string) \<Rightarrow> int \<Rightarrow> char \<Rightarrow> py_error + string" where
  "py_format_int other v c =
     (if c = CHR ''d'' \<or> c = CHR ''0'' then Inr (str_int v)
      else if py_isdigit c then Inr (rjust (of_char c - 48) (str_int v))
      else other v c)"

section \<open>Scanning a pattern\<close>

text \<open>
  \<^verbatim>\<open>re.findall\<close> with one group returns, for each match from the left, the text of the
  group, and the empty string where the group took no part. In all three expressions the
  group is a greedy run of characters that a fixed character must follow, so a position
  matches exactly when the longest run is not empty and that character comes next.
\<close>

text \<open>\<^verbatim>\<open>re.findall(r'\{([^}]+)\}', pattern)\<close> (line 310).\<close>

function findall_variables :: "string \<Rightarrow> string list" where
  "findall_variables [] = []"
| "findall_variables (c # cs) =
     (if c = CHR ''{'' \<and> takeWhile (\<lambda>x. x \<noteq> CHR ''}'') cs \<noteq> []
           \<and> dropWhile (\<lambda>x. x \<noteq> CHR ''}'') cs \<noteq> []
      then takeWhile (\<lambda>x. x \<noteq> CHR ''}'') cs
             # findall_variables (tl (dropWhile (\<lambda>x. x \<noteq> CHR ''}'') cs))
      else findall_variables cs)"
  by pat_completeness auto
termination
proof (relation "measure length")
  show "wf (measure length)" by simp
next
  fix c :: char and cs :: string
  have "length (tl (dropWhile (\<lambda>x. x \<noteq> CHR ''}'') cs)) \<le> length cs"
    using length_dropWhile_le [of "\<lambda>x. x \<noteq> CHR ''}''" cs] by simp
  then show "(tl (dropWhile (\<lambda>x. x \<noteq> CHR ''}'') cs), c # cs) \<in> measure length" by simp
next
  fix c :: char and cs :: string
  show "(cs, c # cs) \<in> measure length" by simp
qed

text \<open>\<^verbatim>\<open>re.findall(r'\{counter(?::([^}]+))?\}', pattern)\<close> (line 140).\<close>

function findall_counter :: "string \<Rightarrow> string list" where
  "findall_counter [] = []"
| "findall_counter (c # cs) =
     (if prefix ''{counter'' (c # cs) then
        (case drop 8 (c # cs) of
           [] \<Rightarrow> findall_counter cs
         | d # rest \<Rightarrow>
             if d = CHR ''}'' then [] # findall_counter rest
             else if d = CHR '':'' \<and> takeWhile (\<lambda>x. x \<noteq> CHR ''}'') rest \<noteq> []
                       \<and> dropWhile (\<lambda>x. x \<noteq> CHR ''}'') rest \<noteq> []
             then takeWhile (\<lambda>x. x \<noteq> CHR ''}'') rest
                    # findall_counter (tl (dropWhile (\<lambda>x. x \<noteq> CHR ''}'') rest))
             else findall_counter cs)
      else findall_counter cs)"
  by pat_completeness auto
termination
proof (relation "measure length")
  show "wf (measure length)" by simp
next
  fix c :: char and cs :: string
  show "(cs, c # cs) \<in> measure length" by simp
next
  fix c d :: char and cs rest :: string
  assume "drop 8 (c # cs) = d # rest"
  then have "length (d # rest) \<le> length (c # cs)"
    by (metis diff_le_self length_drop)
  then show "(rest, c # cs) \<in> measure length" by simp
next
  fix c d :: char and cs rest :: string
  assume "drop 8 (c # cs) = d # rest"
  then have "length (d # rest) \<le> length (c # cs)"
    by (metis diff_le_self length_drop)
  moreover have "length (tl (dropWhile (\<lambda>x. x \<noteq> CHR ''}'') rest)) \<le> length rest"
    using length_dropWhile_le [of "\<lambda>x. x \<noteq> CHR ''}''" rest] by simp
  ultimately show "(tl (dropWhile (\<lambda>x. x \<noteq> CHR ''}'') rest), c # cs) \<in> measure length"
    by simp
next
  fix c :: char and cs :: string
  show "(cs, c # cs) \<in> measure length" by simp
next
  fix c :: char and cs :: string
  show "(cs, c # cs) \<in> measure length" by simp
qed

text \<open>\<^verbatim>\<open>re.findall(r'\{random(?::(\d+))?\}', pattern)\<close> (line 165).\<close>

function findall_random :: "string \<Rightarrow> string list" where
  "findall_random [] = []"
| "findall_random (c # cs) =
     (if prefix ''{random'' (c # cs) then
        (case drop 7 (c # cs) of
           [] \<Rightarrow> findall_random cs
         | d # rest \<Rightarrow>
             if d = CHR ''}'' then [] # findall_random rest
             else if d = CHR '':'' \<and> takeWhile py_isdigit rest \<noteq> []
                       \<and> prefix ''}'' (dropWhile py_isdigit rest)
             then takeWhile py_isdigit rest # findall_random (tl (dropWhile py_isdigit rest))
             else findall_random cs)
      else findall_random cs)"
  by pat_completeness auto
termination
proof (relation "measure length")
  show "wf (measure length)" by simp
next
  fix c :: char and cs :: string
  show "(cs, c # cs) \<in> measure length" by simp
next
  fix c d :: char and cs rest :: string
  assume "drop 7 (c # cs) = d # rest"
  then have "length (d # rest) \<le> length (c # cs)"
    by (metis diff_le_self length_drop)
  then show "(rest, c # cs) \<in> measure length" by simp
next
  fix c d :: char and cs rest :: string
  assume "drop 7 (c # cs) = d # rest"
  then have "length (d # rest) \<le> length (c # cs)"
    by (metis diff_le_self length_drop)
  moreover have "length (tl (dropWhile py_isdigit rest)) \<le> length rest"
    using length_dropWhile_le [of py_isdigit rest] by simp
  ultimately show "(tl (dropWhile py_isdigit rest), c # cs) \<in> measure length"
    by simp
next
  fix c :: char and cs :: string
  show "(cs, c # cs) \<in> measure length" by simp
next
  fix c :: char and cs :: string
  show "(cs, c # cs) \<in> measure length" by simp
qed

section \<open>The renderer\<close>

text \<open>
  \<^verbatim>\<open>_process_counters\<close> (lines 136-159). \<^verbatim>\<open>format_spec\<close> is one string of the list
  that \<^verbatim>\<open>findall\<close> returned, so \<^verbatim>\<open>format_spec[0]\<close> is its first character: on the
  empty string it raises \<^verbatim>\<open>IndexError\<close>, which the outer handler turns into returning
  the pattern as it stands; otherwise it is a string of one character, which is true, so the
  \<^verbatim>\<open>else\<close> branch of line 153 is never taken. The counter is read under the pattern as
  rewritten so far. A \<^verbatim>\<open>ValueError\<close> of the formatting is handled by the inner handler,
  any other exception by the outer one.
\<close>

fun process_counters_loop ::
  "(string \<Rightarrow> int) \<Rightarrow> (int \<Rightarrow> char \<Rightarrow> py_error + string) \<Rightarrow> int \<Rightarrow> string list \<Rightarrow>
   string \<Rightarrow> pattern_manager \<Rightarrow> (string \<times> pattern_manager) option" where
  "process_counters_loop H other user_id [] pattern pm = Some (pattern, pm)"
| "process_counters_loop H other user_id (format_spec # specs) pattern pm =
     (case get_counter H pm user_id pattern of
        None \<Rightarrow> None
      | Some (counter_value, pm1) \<Rightarrow>
          (case format_spec of
             [] \<Rightarrow> Some (pattern, pm1)
           | c # _ \<Rightarrow>
               (case py_format_int other counter_value c of
                  Inr formatted_counter \<Rightarrow>
                    process_counters_loop H other user_id specs
                      (py_replace (''{counter:'' @ [c] @ ''}'') formatted_counter pattern) pm1
                | Inl ValueError \<Rightarrow>
                    process_counters_loop H other user_id specs
                      (py_replace (''{counter:'' @ [c] @ ''}'') (str_int counter_value) pattern)
                      pm1
                | Inl _ \<Rightarrow> Some (pattern, pm1))))"

definition process_counters ::
  "(string \<Rightarrow> int) \<Rightarrow> (int \<Rightarrow> char \<Rightarrow> py_error + string) \<Rightarrow> pattern_manager \<Rightarrow> string \<Rightarrow>
   int \<Rightarrow> (string \<times> pattern_manager) option" where
  "process_counters H other pm pattern user_id =
     process_counters_loop H other user_id (findall_counter pattern) pattern pm"

text \<open>\<^verbatim>\<open>_process_random_variables\<close> (lines 161-177), with the same indexing of a string:
  the length is the first digit of the spec, and the spec of a bare \<^verbatim>\<open>{random}\<close> ends the
  loop through the handler.\<close>

fun process_random_loop :: "(nat \<Rightarrow> int) \<Rightarrow> nat \<Rightarrow> string list \<Rightarrow> string \<Rightarrow> string" where
  "process_random_loop tape pos [] pattern = pattern"
| "process_random_loop tape pos (length_spec # specs) pattern =
     (case length_spec of
        [] \<Rightarrow> pattern
      | c # _ \<Rightarrow>
          (let (random_value, pos1) = generate_random_number tape pos (of_char c - 48)
           in process_random_loop tape pos1 specs
                (py_replace (''{random:'' @ [c] @ ''}'') random_value pattern)))"

definition process_random_variables :: "(nat \<Rightarrow> int) \<Rightarrow> nat \<Rightarrow> string \<Rightarrow> string" where
  "process_random_variables tape pos pattern =
     process_random_loop tape pos (findall_random pattern) pattern"

text \<open>\<^verbatim>\<open>_substitute_variables\<close> (lines 179-192): the context in insertion order.\<close>

definition substitute_variables :: "string \<Rightarrow> (string \<times> string) list \<Rightarrow> string" where
  "substitute_variables pattern context =
     foldl (\<lambda>result (variable, v). py_replace (''{'' @ variable @ ''}'') v result) pattern context"

text \<open>\<^verbatim>\<open>context.update(kwargs)\<close>: a key that is present keeps its place and takes the new
  value, a new key goes to the end. The values are given as \<^verbatim>\<open>str\<close> renders them.\<close>

fun dict_set :: "(string \<times> string) list \<Rightarrow> string \<Rightarrow> string \<Rightarrow> (string \<times> string) list" where
  "dict_set [] k v = [(k, v)]"
| "dict_set ((k', v') # kvs) k v = (if k' = k then (k', v) # kvs else (k', v') # dict_set kvs k v)"

definition dict_update ::
  "(string \<times> string) list \<Rightarrow> (string \<times> string) list \<Rightarrow> (string \<times> string) list" where
  "dict_update context kwargs = foldl (\<lambda>d (k, v). dict_set d k v) context kwargs"

text \<open>The file descriptor: a dictionary in which each of the three keys may be missing.\<close>

record file_info =
  fi_name :: "string option"
  fi_size :: "int option"
  fi_type :: "string option"

text \<open>\<^verbatim>\<open>str(value)\<close> of a value that may be \<^verbatim>\<open>None\<close>, and \<^verbatim>\<open>a or b\<close> on such
  values.\<close>

definition py_str :: "string option \<Rightarrow> string" where
  "py_str v = (case v of None \<Rightarrow> ''None'' | Some s \<Rightarrow> s)"

definition py_or :: "string option \<Rightarrow> string option \<Rightarrow> string option" where
  "py_or a b = (if a = None \<or> a = Some [] then b else a)"

text \<open>The dictionary literal of lines 80-102.\<close>

definition build_context ::
  "render_env \<Rightarrow> user_row option \<Rightarrow> file_info \<Rightarrow> int \<Rightarrow> string \<Rightarrow> string \<Rightarrow>
   (string \<times> string) list" where
  "build_context e user fi user_id size_text size_mb_text =
     (let user_name = (case user of Some u \<Rightarrow> first_name u | None \<Rightarrow> Some ''User'');
          uname = (case user of Some u \<Rightarrow> username u | None \<Rightarrow> Some []);
          original_name = (case fi_name fi of Some n \<Rightarrow> n | None \<Rightarrow> ''file'')
      in [(''date'', strftime_date (now e)),
          (''time'', strftime_time (now e)),
          (''datetime'', strftime_datetime (now e)),
          (''year'', zfill 4 (str_int (dt_year (now e)))),
          (''month'', zfill 2 (str_int (dt_month (now e)))),
          (''day'', zfill 2 (str_int (dt_day (now e)))),
          (''hour'', zfill 2 (str_int (dt_hour (now e)))),
          (''minute'', zfill 2 (str_int (dt_minute (now e)))),
          (''second'', zfill 2 (str_int (dt_second (now e)))),
          (''original'', remove_extension original_name),
          (''original_full'', original_name),
          (''ext'', get_extension original_name),
          (''user'', py_str user_name),
          (''username'', py_str (py_or uname user_name)),
          (''user_id'', str_int user_id),
          (''size'', size_text),
          (''size_mb'', size_mb_text),
          (''type'', (case fi_type fi of Some t \<Rightarrow> t | None \<Rightarrow> ''file'')),
          (''timestamp'', str_int (dt_timestamp (now e))),
          (''uuid'', uuid8 e),
          (''random'', fst (generate_random_number (random_tape e) 0 6))])"

text \<open>Lines 119-121: the extension is appended unless the name already ends with it.\<close>

definition ensure_extension :: "string \<Rightarrow> string \<Rightarrow> string" where
  "ensure_extension result file_ext =
     (if \<not> suffix file_ext result \<and> file_ext \<noteq> [] then result @ file_ext else result)"

text \<open>
  The \<^verbatim>\<open>try\<close> block of \<^verbatim>\<open>apply_pattern\<close> up to the point where the name is complete
  (lines 68-121). The helpers it calls catch their own exceptions; what can leave the block
  on a well-typed file descriptor is the \<^verbatim>\<open>OverflowError\<close> of the two size conversions,
  raised while the context is built. The result is the exception, or the name together with
  the manager as the reads of the counter have left it.
\<close>

definition apply_pattern_name ::
  "(string \<Rightarrow> int) \<Rightarrow> render_env \<Rightarrow> pattern_manager \<Rightarrow> string \<Rightarrow> file_info \<Rightarrow> int \<Rightarrow>
   (string \<times> string) list \<Rightarrow> (py_error + (string \<times> pattern_manager)) option" where
  "apply_pattern_name H e pm pattern fi user_id kwargs =
     (case get_user False (db pm) user_id of
        None \<Rightarrow> None
      | Some user \<Rightarrow>
          (let original_name = (case fi_name fi of Some n \<Rightarrow> n | None \<Rightarrow> ''file'');
               file_ext = get_extension original_name;
               size_bytes = (case fi_size fi of Some n \<Rightarrow> n | None \<Rightarrow> 0)
           in case format_size size_bytes of
                Inl err \<Rightarrow> Some (Inl err)
              | Inr size_text \<Rightarrow>
                  (case size_mb size_bytes of
                     Inl err \<Rightarrow> Some (Inl err)
                   | Inr size_mb_text \<Rightarrow>
                       (case process_counters H (format_other e) pm pattern user_id of
                          None \<Rightarrow> None
                        | Some (pattern_with_counters, pm1) \<Rightarrow>
                            (let context =
                                   dict_update
                                     (build_context e user fi user_id size_text size_mb_text)
                                     kwargs;
                                 pattern_with_randoms =
                                   process_random_variables (random_tape e) 6
                                     pattern_with_counters;
                                 result = substitute_variables pattern_with_randoms context;
                                 result = clean_filename result;
                                 result = ensure_extension result file_ext
                             in Some (Inr (result, pm1)))))))"

text \<open>The whole \<^verbatim>\<open>try\<close> block (lines 68-126): once the name is complete, the counter is
  incremented (line 124) and the name returned (line 126).\<close>

definition apply_pattern_try ::
  "(string \<Rightarrow> int) \<Rightarrow> render_env \<Rightarrow> pattern_manager \<Rightarrow> string \<Rightarrow> file_info \<Rightarrow> int \<Rightarrow>
   (string \<times> string) list \<Rightarrow> (py_error + (string \<times> pattern_manager)) option" where
  "apply_pattern_try H e pm pattern fi user_id kwargs =
     (case apply_pattern_name H e pm pattern fi user_id kwargs of
        None \<Rightarrow> None
      | Some (Inl err) \<Rightarrow> Some (Inl err)
      | Some (Inr (result, pm1)) \<Rightarrow>
          (case increment_counter H pm1 user_id pattern of
             None \<Rightarrow> None
           | Some pm2 \<Rightarrow> Some (Inr (result, pm2))))"

text \<open>The \<^verbatim>\<open>except\<close> branch (lines 128-134).\<close>

definition fallback_name :: "render_env \<Rightarrow> file_info \<Rightarrow> string" where
  "fallback_name e fi =
     remove_extension (case fi_name fi of Some n \<Rightarrow> n | None \<Rightarrow> ''file'') @ ''_'' @
     strftime_datetime (now_fallback e) @
     get_extension (case fi_name fi of Some n \<Rightarrow> n | None \<Rightarrow> [])"

text \<open>\<^verbatim>\<open>apply_pattern\<close> (lines 65-134): the name and the manager afterwards, or \<open>None\<close>
  when the call never returns.\<close>

definition apply_pattern ::
  "(string \<Rightarrow> int) \<Rightarrow> render_env \<Rightarrow> pattern_manager \<Rightarrow> string \<Rightarrow> file_info \<Rightarrow> int \<Rightarrow>
   (string \<times> string) list \<Rightarrow> (string \<times> pattern_manager) option" where
  "apply_pattern H e pm pattern fi user_id kwargs =
     (case apply_pattern_try H e pm pattern fi user_id kwargs of
        None \<Rightarrow> None
      | Some (Inr r) \<Rightarrow> Some r
      | Some (Inl err) \<Rightarrow> Some (fallback_name e fi, pm))"

text \<open>\<^verbatim>\<open>get_pattern_preview\<close> (lines 332-354): the cache is copied before the render and
  put back after it, in the \<^verbatim>\<open>finally\<close> block, which runs once the render has returned.
  \<^verbatim>\<open>apply_pattern\<close> raises nothing, so the outer handler is not reached.\<close>

definition sample_file_info :: file_info where
  "sample_file_info =
     \<lparr>fi_name = Some ''sample_video.mp4'', fi_size = Some (150 * 1024 * 1024),
      fi_type = Some ''video''\<rparr>"

definition get_pattern_preview ::
  "(string \<Rightarrow> int) \<Rightarrow> render_env \<Rightarrow> pattern_manager \<Rightarrow> string \<Rightarrow> int \<Rightarrow> file_info option \<Rightarrow>
   (string \<times> pattern_manager) option" where
  "get_pattern_preview H e pm pattern user_id sample =
     (let fi = (case sample of None \<Rightarrow> sample_file_info | Some f \<Rightarrow> f);
          original_counters = user_counters pm
      in case apply_pattern H e pm pattern fi user_id [] of
           None \<Rightarrow> None
         | Some (result, pm1) \<Rightarrow> Some (result, pm1\<lparr>user_counters := original_counters\<rparr>))"

section \<open>The validator\<close>

text \<open>The keys of \<^verbatim>\<open>self.variables\<close> (lines 21-48).\<close>

definition variables :: "string list" where
  "variables =
     [''counter'', ''counter:02d'', ''counter:03d'', ''date'', ''time'', ''datetime'', ''year'',
      ''month'', ''day'', ''hour'', ''minute'', ''second'', ''original'', ''original_full'',
      ''ext'', ''user'', ''username'', ''user_id'', ''size'', ''size_mb'', ''type'', ''random'',
      ''random:4'', ''random:8'', ''uuid'', ''timestamp'']"

text \<open>The loop of lines 313-319: the message of the first variable that is refused.
  \<^verbatim>\<open>var.split(':')[0]\<close> on an empty list would raise, and the handler of line 328 would
  return the text of the exception.\<close>

fun check_variables :: "string list \<Rightarrow> string option" where
  "check_variables [] = None"
| "check_variables (var # vars) =
     (case py_split CHR '':'' var of
        [] \<Rightarrow> Some ''list index out of range''
      | base_var # _ \<Rightarrow>
          if base_var \<in> set variables then check_variables vars
          else if base_var = ''counter'' \<or> base_var = ''random'' then check_variables vars
          else Some (''Unknown variable: {'' @ var @ ''}''))"

text \<open>\<^verbatim>\<open>validate_pattern\<close> (lines 296-330). It reads the pattern and the table of
  variables and writes nothing, so it is a function of the pattern alone.\<close>

definition validate_pattern :: "string \<Rightarrow> bool \<times> string" where
  "validate_pattern pattern =
     (if pattern = [] \<or> py_strip py_isspace pattern = [] then (False, ''Pattern cannot be empty'')
      else if count_list pattern CHR ''{'' \<noteq> count_list pattern CHR ''}''
      then (False, ''Unmatched braces in pattern'')
      else (case check_variables (findall_variables pattern) of
              Some msg \<Rightarrow> (False, msg)
            | None \<Rightarrow>
                if clean_filename pattern = []
                then (False, ''Pattern would result in invalid filename'')
                else (True, ''Valid pattern'')))"

section \<open>Auxiliary definitions\<close>

text \<open>The shape of a sanitized name: none of the nine replaced characters, no doubled
  underscore, not empty, no underscore at either end.\<close>

definition clean_form :: "string \<Rightarrow> bool" where
  "clean_form r \<longleftrightarrow>
     set r \<inter> set invalid_chars = {} \<and> \<not> py_in ''__'' r \<and> r \<noteq> [] \<and>
     hd r \<noteq> CHR ''_'' \<and> last r \<noteq> CHR ''_''"





definition movie_file :: file_info where
  "movie_file =
     \<lparr>fi_name = Some ''movie.mp4'', fi_size = Some 1048576, fi_type = Some ''video''\<rparr>"

definition report_file :: file_info where
  "report_file =
     \<lparr>fi_name = Some ''report.pdf'', fi_size = Some 2048, fi_type = Some ''document''\<rparr>"



section \<open>Properties of the string primitives\<close>

lemma py_in_single: "py_in [c] s \<longleftrightarrow> c \<in> set s"
  by (induction s) auto

lemma py_in_iff_sublist: "py_in sub s \<longleftrightarrow> sublist sub s"
  by (induction s) (auto simp: sublist_Cons_right)

lemma py_replace_char: "py_replace [c] [d] s = map (\<lambda>x. if x = c then d else x) s"
  by (induction s) auto

lemma py_replace_absent: "\<not> py_in old s \<Longrightarrow> old \<noteq> [] \<Longrightarrow> py_replace old new s = s"
  by (induction s) auto

lemma py_split_not_Nil: "py_split sep s \<noteq> []"
  by (subst py_split.simps) (simp split: list.splits)

lemma py_join_Cons: "ps \<noteq> [] \<Longrightarrow> py_join sep (p # ps) = p @ sep @ py_join sep ps"
  by (cases ps) simp_all

lemma py_join_split: "py_join [sep] (py_split sep s) = s"
proof (induction sep s rule: py_split.induct)
  case (1 sep s)
  show ?case
  proof (cases "dropWhile (\<lambda>c. c \<noteq> sep) s")
    case Nil
    then have "takeWhile (\<lambda>c. c \<noteq> sep) s = s"
      by (metis append_Nil2 takeWhile_dropWhile_id)
    moreover have "py_split sep s = [takeWhile (\<lambda>c. c \<noteq> sep) s]"
      by (subst py_split.simps) (simp only: Nil list.case)
    ultimately show ?thesis by simp
  next
    case (Cons x rest)
    then have x: "x = sep"
      using hd_dropWhile [of "\<lambda>c. c \<noteq> sep" s] by simp
    have "takeWhile (\<lambda>c. c \<noteq> sep) s @ sep # rest = s"
      using Cons x by (metis takeWhile_dropWhile_id)
    moreover have "py_join [sep] (py_split sep rest) = rest"
      using 1 Cons by simp
    moreover have "py_split sep s = takeWhile (\<lambda>c. c \<noteq> sep) s # py_split sep rest"
      by (subst py_split.simps) (simp only: Cons list.case)
    ultimately show ?thesis
      by (simp add: py_join_Cons py_split_not_Nil)
  qed
qed

lemma py_join_butlast_last:
  "butlast xs \<noteq> [] \<Longrightarrow> py_join sep (butlast xs) @ sep @ last xs = py_join sep xs"
proof (induction xs)
  case Nil
  then show ?case by simp
next
  case (Cons x xs)
  show ?case
  proof (cases xs)
    case Nil
    then show ?thesis using Cons.prems by simp
  next
    case outer: (Cons y ys)
    show ?thesis
    proof (cases ys)
      case Nil
      then show ?thesis using outer by simp
    next
      case (Cons z zs)
      then have ne: "butlast xs \<noteq> []" using outer by simp
      have "py_join sep (butlast (x # xs)) = x @ sep @ py_join sep (butlast xs)"
        using ne outer by (simp add: py_join_Cons)
      moreover have "py_join sep (x # xs) = x @ sep @ py_join sep xs"
        using outer by (simp add: py_join_Cons)
      moreover have "last (x # xs) = last xs" using outer by simp
      ultimately show ?thesis using Cons.IH [OF ne] by simp
    qed
  qed
qed

lemma py_split_two: "sep \<in> set s \<Longrightarrow> butlast (py_split sep s) \<noteq> []"
proof -
  assume "sep \<in> set s"
  then have "dropWhile (\<lambda>c. c \<noteq> sep) s \<noteq> []" by (simp add: dropWhile_eq_Nil_conv)
  then obtain x rest where xr: "dropWhile (\<lambda>c. c \<noteq> sep) s = x # rest"
    by (cases "dropWhile (\<lambda>c. c \<noteq> sep) s") auto
  have "py_split sep s = takeWhile (\<lambda>c. c \<noteq> sep) s # py_split sep rest"
    by (subst py_split.simps) (simp only: xr list.case)
  then show ?thesis by (simp add: py_split_not_Nil)
qed

lemma strip_all: "list_all P s \<Longrightarrow> py_strip P s = []"
proof -
  assume "list_all P s"
  then have "dropWhile P s = []" by (simp add: list_all_iff)
  then show ?thesis by (simp only: py_strip_def rev.simps dropWhile.simps)
qed

lemma py_strip_id: "r \<noteq> [] \<Longrightarrow> \<not> P (hd r) \<Longrightarrow> \<not> P (last r) \<Longrightarrow> py_strip P r = r"
proof -
  assume ne: "r \<noteq> []" and h: "\<not> P (hd r)" and l: "\<not> P (last r)"
  have "dropWhile P r = r" using ne h by (cases r) auto
  moreover have "dropWhile P (rev r) = rev r"
    using ne l by (cases "rev r") (auto simp: last_rev [symmetric] simp del: last_rev)
  ultimately show ?thesis by (simp add: py_strip_def)
qed

lemma py_strip_sublist: "sublist (py_strip P s) s"
proof -
  have "suffix (dropWhile P s) s" by (rule suffix_dropWhile)
  moreover have "prefix (py_strip P s) (dropWhile P s)"
    unfolding py_strip_def
    by (metis suffix_dropWhile suffix_to_prefix rev_rev_ident)
  ultimately show ?thesis
    by (meson prefix_imp_sublist suffix_imp_sublist sublist_order.order_trans)
qed

lemma py_strip_ends:
  "py_strip P s \<noteq> [] \<Longrightarrow> \<not> P (hd (py_strip P s)) \<and> \<not> P (last (py_strip P s))"
proof -
  assume ne: "py_strip P s \<noteq> []"
  let ?t = "dropWhile P s"
  let ?u = "dropWhile P (rev ?t)"
  have u: "?u \<noteq> []" using ne by (simp add: py_strip_def)
  then have l: "\<not> P (hd ?u)" by (rule hd_dropWhile)
  have "last (py_strip P s) = hd ?u" using u by (simp add: py_strip_def last_rev)
  moreover have "\<not> P (hd (py_strip P s))"
  proof -
    have t: "?t \<noteq> []" using u by (cases "?t") auto
    then have "\<not> P (hd ?t)" by (rule hd_dropWhile)
    moreover have "hd (rev ?u) = hd ?t"
    proof -
      obtain ys where "rev ?t = ys @ ?u" by (metis takeWhile_dropWhile_id)
      then have "?t = rev ?u @ rev ys" by (metis rev_append rev_rev_ident)
      then show ?thesis using u by (metis hd_append2 rev_is_Nil_conv)
    qed
    ultimately show ?thesis by (simp add: py_strip_def)
  qed
  ultimately show ?thesis using l by simp
qed

section \<open>Properties of the sanitizer\<close>

lemma foldl_replace_absent:
  "set s \<inter> set cs = {} \<Longrightarrow> foldl (\<lambda>s c. py_replace [c] ''_'' s) s cs = s"
  by (induction cs arbitrary: s) (auto simp: py_replace_absent py_in_single)

lemma clean_of_clean_form: "clean_form r \<Longrightarrow> clean_filename r = r"
  unfolding clean_form_def clean_filename_def
  by (simp add: foldl_replace_absent collapse_underscores.simps [of r] py_strip_id Let_def)

lemma foldl_replace_keeps_absent:
  "c \<notin> set t \<Longrightarrow> c \<noteq> CHR ''_'' \<Longrightarrow> c \<notin> set (foldl (\<lambda>s c. py_replace [c] ''_'' s) t cs)"
proof (induction cs arbitrary: t)
  case Nil
  then show ?case by simp
next
  case (Cons d cs)
  have "c \<notin> set (py_replace [d] ''_'' t)"
    using Cons.prems by (auto simp: py_replace_char)
  then show ?case using Cons by simp
qed

lemma foldl_replace_removes:
  "CHR ''_'' \<notin> set cs \<Longrightarrow> set (foldl (\<lambda>s c. py_replace [c] ''_'' s) t cs) \<inter> set cs = {}"
proof (induction cs arbitrary: t)
  case Nil
  then show ?case by simp
next
  case (Cons c cs)
  have "c \<notin> set (py_replace [c] ''_'' t)"
    using Cons.prems by (auto simp: py_replace_char)
  then have "c \<notin> set (foldl (\<lambda>s c. py_replace [c] ''_'' s) (py_replace [c] ''_'' t) cs)"
    using Cons.prems by (intro foldl_replace_keeps_absent) auto
  moreover have "set (foldl (\<lambda>s c. py_replace [c] ''_'' s) (py_replace [c] ''_'' t) cs) \<inter> set cs = {}"
    using Cons by simp
  ultimately show ?case by simp
qed

lemma invalid_replaced:
  "set (foldl (\<lambda>s c. py_replace [c] ''_'' s) s invalid_chars) \<inter> set invalid_chars = {}"
  by (rule foldl_replace_removes) (simp add: invalid_chars_def)

lemma set_py_replace: "old \<noteq> [] \<Longrightarrow> set (py_replace old new s) \<subseteq> set s \<union> set new"
proof (induction old new s rule: py_replace.induct)
  case (1 old new)
  then show ?case by simp
next
  case (2 old new c cs)
  show ?case
  proof (cases "prefix old (c # cs)")
    case True
    have "set (drop (length old) (c # cs)) \<subseteq> set (c # cs)" by (rule set_drop_subset)
    then show ?thesis using 2 True by auto
  next
    case False
    then show ?thesis using 2 by auto
  qed
qed

lemma collapse_props:
  "\<not> py_in ''__'' (collapse_underscores s) \<and> set (collapse_underscores s) \<subseteq> set s \<union> {CHR ''_''}"
proof (induction s rule: collapse_underscores.induct)
  case (1 s)
  show ?case
  proof (cases "py_in ''__'' s")
    case True
    have "set (py_replace ''__'' ''_'' s) \<subseteq> set s \<union> {CHR ''_''}"
      using set_py_replace [of "''__''" "''_''" s] by simp
    then show ?thesis using 1 True by (subst (1 2) collapse_underscores.simps) auto
  next
    case False
    then show ?thesis by (subst (1 2) collapse_underscores.simps) auto
  qed
qed

lemma clean_filename_unfold:
  "clean_filename x =
    (if py_strip (\<lambda>c. c = CHR ''_'')
          (collapse_underscores (foldl (\<lambda>s c. py_replace [c] ''_'' s) x invalid_chars)) = []
     then ''renamed_file''
     else py_strip (\<lambda>c. c = CHR ''_'')
          (collapse_underscores (foldl (\<lambda>s c. py_replace [c] ''_'' s) x invalid_chars)))"
  by (simp only: clean_filename_def Let_def)

lemma clean_form_fallback: "clean_form ''renamed_file''"
  by (simp add: clean_form_def invalid_chars_def)

lemma clean_filename_form: "clean_form (clean_filename x)"
proof -
  define a where "a = foldl (\<lambda>s c. py_replace [c] ''_'' s) x invalid_chars"
  define b where "b = collapse_underscores a"
  define c where "c = py_strip (\<lambda>c. c = CHR ''_'') b"
  have unfold: "clean_filename x = (if c = [] then ''renamed_file'' else c)"
    unfolding a_def b_def c_def by (rule clean_filename_unfold)
  show ?thesis
  proof (cases "c = []")
    case True
    then show ?thesis using unfold clean_form_fallback by simp
  next
    case False
    have sub: "sublist c b" unfolding c_def by (rule py_strip_sublist)
    have a: "set a \<inter> set invalid_chars = {}" unfolding a_def by (rule invalid_replaced)
    have b: "set b \<subseteq> set a \<union> {CHR ''_''}" unfolding b_def using collapse_props by blast
    have cb: "set c \<subseteq> set b" using sub by (rule set_mono_sublist)
    have u: "CHR ''_'' \<notin> set invalid_chars" by (simp add: invalid_chars_def)
    have inv: "set c \<inter> set invalid_chars = {}"
      using a b cb u by blast
    have "\<not> sublist ''__'' b" unfolding b_def using collapse_props by (simp add: py_in_iff_sublist)
    then have "\<not> sublist ''__'' c"
      using sub sublist_order.order_trans by blast
    then have nodbl: "\<not> py_in ''__'' c" by (simp add: py_in_iff_sublist)
    have ends: "hd c \<noteq> CHR ''_'' \<and> last c \<noteq> CHR ''_''"
      using py_strip_ends [of "\<lambda>c. c = CHR ''_''" b] False unfolding c_def by simp
    have "clean_form c"
      unfolding clean_form_def using inv nodbl False ends by blast
    then show ?thesis using unfold False by simp
  qed
qed

section \<open>Properties of the lock and the counter store\<close>

lemma get_user_free: "get_user False d user_id = Some (d user_id)"
  by (simp add: get_user_def with_lock_def)

lemma set_user_preference_blocks: "set_user_preference d user_id key v = None"
  by (simp add: set_user_preference_def get_user_def with_lock_def)

lemma get_counter_returns:
  "get_counter H pm user_id p =
     Some (case user_counters pm (cache_key H user_id p) of
             Some v \<Rightarrow> (v, pm)
           | None \<Rightarrow>
               (case db pm user_id of
                  None \<Rightarrow> (1, pm\<lparr>user_counters := (user_counters pm)(cache_key H user_id p \<mapsto> 1)\<rparr>)
                | Some user \<Rightarrow>
                    (case preferences user (pref_key H p) of
                       None \<Rightarrow> (1, pm\<lparr>user_counters := (user_counters pm)(cache_key H user_id p \<mapsto> 1)\<rparr>)
                     | Some v \<Rightarrow> (v, pm\<lparr>user_counters := (user_counters pm)(cache_key H user_id p \<mapsto> v)\<rparr>))))"
  by (simp add: get_counter_def get_user_preference_def get_user_free split: option.splits)

lemma get_counter_Some: "\<exists>v pm1. get_counter H pm user_id p = Some (v, pm1)"
  by (simp add: get_counter_def get_user_preference_def get_user_free split: option.splits)

lemma increment_counter_blocks: "increment_counter H pm user_id p = None"
  by (simp add: increment_counter_def set_user_preference_blocks Let_def split: option.splits prod.splits)

lemma apply_pattern_try_cases:
  "apply_pattern_try H e pm pattern fi user_id kwargs =
     (case apply_pattern_name H e pm pattern fi user_id kwargs of
        Some (Inl err) \<Rightarrow> Some (Inl err) | _ \<Rightarrow> None)"
  by (simp add: apply_pattern_try_def increment_counter_blocks split: option.splits sum.splits prod.splits)




lemma process_counters_loop_returns:
  "\<exists>q pm1. process_counters_loop H other user_id specs pattern pm = Some (q, pm1)"
proof (induction specs arbitrary: pattern pm)
  case Nil
  then show ?case by simp
next
  case (Cons spec specs)
  obtain v pm0 where g: "get_counter H pm user_id pattern = Some (v, pm0)"
    using get_counter_Some by blast
  show ?case
  proof (cases spec)
    case Nil
    then show ?thesis using g by simp
  next
    case spec: (Cons c cs)
    show ?thesis
    proof (cases "py_format_int other v c")
      case (Inr formatted)
      then show ?thesis using g spec Cons.IH by simp
    next
      case (Inl err)
      then show ?thesis using g spec Cons.IH by (cases err) simp_all
    qed
  qed
qed

section \<open>Overflow of the size conversions\<close>









section \<open>Properties of the renderer\<close>

lemma apply_pattern_name_fails:
  "apply_pattern_name H e pm pattern fi user_id kwargs = Some (Inl err) \<longleftrightarrow>
     format_size (case fi_size fi of Some k \<Rightarrow> k | None \<Rightarrow> 0) = Inl err \<or>
     (\<exists>t. format_size (case fi_size fi of Some k \<Rightarrow> k | None \<Rightarrow> 0) = Inr t) \<and>
       size_mb (case fi_size fi of Some k \<Rightarrow> k | None \<Rightarrow> 0) = Inl err"
  unfolding apply_pattern_name_def Let_def
  by (auto simp: get_user_free split: sum.splits option.splits prod.splits)

lemma apply_pattern_cases:
  "apply_pattern H e pm pattern fi user_id kwargs =
     (case apply_pattern_name H e pm pattern fi user_id kwargs of
        Some (Inl err) \<Rightarrow> Some (fallback_name e fi, pm) | _ \<Rightarrow> None)"
  by (simp add: apply_pattern_def apply_pattern_try_cases split: option.splits sum.splits)


lemma render_blocks:
  assumes "format_size (case fi_size fi of Some k \<Rightarrow> k | None \<Rightarrow> 0) = Inr size_text"
    and "size_mb (case fi_size fi of Some k \<Rightarrow> k | None \<Rightarrow> 0) = Inr size_mb_text"
  shows "apply_pattern H e pm pattern fi user_id kwargs = None"
proof -
  have "\<And>err. apply_pattern_name H e pm pattern fi user_id kwargs \<noteq> Some (Inl err)"
    using assms by (simp add: apply_pattern_name_fails)
  then show ?thesis
    by (simp add: apply_pattern_cases split: option.splits sum.splits)
qed

lemma apply_pattern_name_unfold:
  assumes "format_size (case fi_size fi of Some k \<Rightarrow> k | None \<Rightarrow> 0) = Inr size_text"
    and "size_mb (case fi_size fi of Some k \<Rightarrow> k | None \<Rightarrow> 0) = Inr size_mb_text"
    and "process_counters H (format_other e) pm pattern user_id = Some (q, pm1)"
  shows "apply_pattern_name H e pm pattern fi user_id kwargs =
     Some (Inr (ensure_extension
                  (clean_filename
                     (substitute_variables (process_random_variables (random_tape e) 6 q)
                        (dict_update
                           (build_context e (db pm user_id) fi user_id size_text size_mb_text)
                           kwargs)))
                  (get_extension (case fi_name fi of Some n \<Rightarrow> n | None \<Rightarrow> ''file'')),
                pm1))"
  unfolding apply_pattern_name_def Let_def
  using assms by (simp add: get_user_free)

lemma movie_sizes: "format_size 1048576 = Inr ''1MB'' \<and> size_mb 1048576 = Inr ''1.0''"
  by code_simp

lemma movie_parts:
  "remove_extension ''movie.mp4'' = ''movie'' \<and> get_extension ''movie.mp4'' = ''.mp4''"
  by code_simp

lemma movie_fields:
  "fi_name movie_file = Some ''movie.mp4'' \<and> fi_size movie_file = Some 1048576"
  by (simp add: movie_file_def)

lemma plain_scans:
  "findall_counter ''{counter}_{original}'' = [[]] \<and>
   findall_random ''{counter}_{original}'' = []"
  by code_simp

lemma plain_counters:
  "\<exists>pm1. process_counters H other pm ''{counter}_{original}'' user_id =
     Some (''{counter}_{original}'', pm1)"
proof -
  obtain v pm1 where "get_counter H pm user_id ''{counter}_{original}'' = Some (v, pm1)"
    using get_counter_Some by blast
  then show ?thesis by (simp add: process_counters_def plain_scans)
qed

lemma plain_randoms:
  "process_random_variables tape pos ''{counter}_{original}'' = ''{counter}_{original}''"
  by (simp add: process_random_variables_def plain_scans)

lemma plain_substitution:
  "substitute_variables ''{counter}_{original}''
     (dict_update (build_context e user movie_file user_id size_text size_mb_text) []) =
   ''{counter}_movie''"
  by (simp add: substitute_variables_def dict_update_def build_context_def movie_file_def
        movie_parts Let_def)

lemma plain_clean:
  "ensure_extension (clean_filename ''{counter}_movie'') ''.mp4'' = ''{counter}_movie.mp4''"
  by code_simp

lemma example_scans:
  "findall_counter ''{counter:03d}_{original}.{ext}'' = [''03d''] \<and>
   findall_random ''{counter:03d}_{original}.{ext}'' = [] \<and>
   \<not> py_in ''{counter:0}'' ''{counter:03d}_{original}.{ext}''"
  by code_simp

lemma example_counters:
  "\<exists>pm1. process_counters H other pm ''{counter:03d}_{original}.{ext}'' user_id =
     Some (''{counter:03d}_{original}.{ext}'', pm1)"
proof -
  obtain v pm1 where "get_counter H pm user_id ''{counter:03d}_{original}.{ext}'' = Some (v, pm1)"
    using get_counter_Some by blast
  then show ?thesis
    by (simp add: process_counters_def example_scans py_format_int_def py_replace_absent)
qed

lemma example_randoms:
  "process_random_variables tape pos ''{counter:03d}_{original}.{ext}'' =
     ''{counter:03d}_{original}.{ext}''"
  by (simp add: process_random_variables_def example_scans)

lemma example_substitution:
  "substitute_variables ''{counter:03d}_{original}.{ext}''
     (dict_update (build_context e user movie_file user_id size_text size_mb_text) []) =
   ''{counter:03d}_movie..mp4''"
  by (simp add: substitute_variables_def dict_update_def build_context_def movie_file_def
        movie_parts Let_def)

lemma example_clean:
  "ensure_extension (clean_filename ''{counter:03d}_movie..mp4'') ''.mp4'' =
     ''{counter_03d}_movie..mp4''"
  by code_simp

lemma sample_sizes: "format_size 157286400 = Inr ''150MB'' \<and> size_mb 157286400 = Inr ''150.0''"
  by code_simp

lemma report_sizes: "format_size 2048 = Inr ''2KB'' \<and> size_mb 2048 = Inr ''0.0''"
  by code_simp

lemma report_parts:
  "remove_extension ''report.pdf'' = ''report'' \<and> get_extension ''report.pdf'' = ''.pdf''"
  by code_simp

lemma report_fields:
  "fi_name report_file = Some ''report.pdf'' \<and> fi_size report_file = Some 2048"
  by (simp add: report_file_def)

lemma report_scans:
  "findall_counter ''{original}_v2'' = [] \<and> findall_random ''{original}_v2'' = []"
  by code_simp

lemma report_substitution:
  "substitute_variables ''{original}_v2''
     (dict_update (build_context e user report_file user_id size_text size_mb_text) []) =
   ''report_v2''"
  by (simp add: substitute_variables_def dict_update_def build_context_def report_file_def
        report_parts Let_def)

lemma report_clean:
  "ensure_extension (clean_filename ''report_v2'') ''.pdf'' = ''report_v2.pdf''"
  by code_simp


section \<open>Extension splitting is exact\<close>

text \<open>
  Claim C10. For every file name, the name without its extension followed by the extension is
  the name itself: a name without a dot splits into itself and the empty string, any other
  name into the text before the last dot and the dot with the text after it.
\<close>

theorem extension_split_exact: "remove_extension f @ get_extension f = f"
proof (cases "CHR ''.'' \<in> set f")
  case False
  then show ?thesis by (simp add: remove_extension_def get_extension_def py_in_single)
next
  case True
  obtain p ps where parts: "py_split CHR ''.'' f = p # ps"
    using py_split_not_Nil [of "CHR ''.''" f] by (cases "py_split CHR ''.'' f") auto
  have "py_join ''.'' (butlast (py_split CHR ''.'' f)) @ ''.'' @ last (py_split CHR ''.'' f)
        = py_join ''.'' (py_split CHR ''.'' f)"
    by (rule py_join_butlast_last) (rule py_split_two [OF True])
  also have "\<dots> = f" by (rule py_join_split)
  finally show ?thesis
    using True parts by (simp add: remove_extension_def get_extension_def py_in_single)
qed


section \<open>The sanitizer is idempotent\<close>

text \<open>
  Claim C8. Sanitizing a sanitized name changes nothing, for every string; and the name
  \<^verbatim>\<open>a//b::c\<close> is sanitized to \<^verbatim>\<open>a_b_c\<close>.
\<close>

theorem sanitize_idempotent:
  "clean_filename (clean_filename x) = clean_filename x \<and>
   clean_filename ''a//b::c'' = ''a_b_c''"
proof
  show "clean_filename (clean_filename x) = clean_filename x"
    by (rule clean_of_clean_form) (rule clean_filename_form)
  show "clean_filename ''a//b::c'' = ''a_b_c''"
    by code_simp
qed

section \<open>The validator on the documented examples\<close>

text \<open>
  Claim C5. \<^verbatim>\<open>validate_pattern\<close> accepts \<^verbatim>\<open>{counter}_{original}.{ext}\<close>; it refuses
  \<^verbatim>\<open>{nope}\<close> with the message that names the unknown variable, \<^verbatim>\<open>{foo\<close> for its
  unmatched brace, and the empty pattern and every pattern of whitespace only as empty. It is
  a function of the pattern and has no state to change.
\<close>

theorem validate_pattern_examples:
  "validate_pattern ''{counter}_{original}.{ext}'' = (True, ''Valid pattern'') \<and>
   validate_pattern ''{nope}'' = (False, ''Unknown variable: {nope}'') \<and>
   validate_pattern ''{foo'' = (False, ''Unmatched braces in pattern'') \<and>
   validate_pattern [] = (False, ''Pattern cannot be empty'') \<and>
   (list_all py_isspace p \<longrightarrow> validate_pattern p = (False, ''Pattern cannot be empty''))"
proof (intro conjI impI)
  show "validate_pattern ''{counter}_{original}.{ext}'' = (True, ''Valid pattern'')"
    by code_simp
  show "validate_pattern ''{nope}'' = (False, ''Unknown variable: {nope}'')"
    by code_simp
  show "validate_pattern ''{foo'' = (False, ''Unmatched braces in pattern'')"
    by code_simp
  show "validate_pattern [] = (False, ''Pattern cannot be empty'')"
    by code_simp
  show "validate_pattern p = (False, ''Pattern cannot be empty'')" if "list_all py_isspace p"
    using strip_all [OF that] by (simp add: validate_pattern_def)
qed

theorem validate_pattern_examples_witness:
  "list_all py_isspace [CHR '' '', CHR 0x09, CHR '' ''] \<and>
   validate_pattern [CHR '' '', CHR 0x09, CHR '' ''] = (False, ''Pattern cannot be empty'')"
  using validate_pattern_examples [of "[CHR '' '', CHR 0x09, CHR '' '']"]
  by (simp add: py_isspace_def)

section \<open>The validator accepts patterns of filler only\<close>

text \<open>
  Claim C9. The claim says that a pattern which the sanitizer empties is refused. The
  sanitizer never returns the empty string, since it returns \<^verbatim>\<open>renamed_file\<close> in its
  place, so the test of line 323 never fires: the patterns \<^verbatim>\<open>___\<close> and \<^verbatim>\<open>//\<close> are
  accepted as valid.
\<close>

theorem validate_accepts_filler:
  "validate_pattern ''___'' = (True, ''Valid pattern'') \<and>
   validate_pattern ''//'' = (True, ''Valid pattern'') \<and>
   clean_filename p \<noteq> []"
proof (intro conjI)
  show "validate_pattern ''___'' = (True, ''Valid pattern'')" by code_simp
  show "validate_pattern ''//'' = (True, ''Valid pattern'')" by code_simp
  show "clean_filename p \<noteq> []"
    using clean_filename_form [of p] by (simp add: clean_form_def)
qed

section \<open>The size values\<close>

lemma bit_length_le: "n < 2 ^ k \<Longrightarrow> bit_length n \<le> k"
proof (induction k arbitrary: n)
  case 0
  then show ?case by (subst bit_length.simps) simp
next
  case (Suc k)
  show ?case
  proof (cases "n \<le> 0")
    case True
    then show ?thesis by (subst bit_length.simps) simp
  next
    case False
    have "n div 2 < 2 ^ k" using Suc.prems by simp
    then have "bit_length (n div 2) \<le> k" by (rule Suc.IH)
    then show ?thesis using False by (subst bit_length.simps) simp
  qed
qed

lemma round_to_double_exact:
  assumes "0 \<le> n" and "n < 2 ^ 53" and "53 \<le> lim"
  shows "round_to_double lim n = Inr n"
proof -
  have "bit_length n \<le> 53" using assms(2) by (rule bit_length_le)
  then have e: "bit_length \<bar>n\<bar> - 53 = 0" using assms(1) by simp
  have "(2::int) ^ 53 \<le> 2 ^ lim" using assms(3) by (intro power_increasing) simp_all
  then have small: "\<not> 2 ^ lim \<le> n" using assms(2) by linarith
  have "sgn n * n = n" using assms(1) by (simp add: sgn_if)
  then show ?thesis
    using e small assms(1) by (simp add: round_to_double_def round_half_even_def Let_def)
qed

text \<open>
  Claim C7, as stated: the \<^verbatim>\<open>size\<close> value has one decimal place and never goes beyond
  \<^verbatim>\<open>GB\<close>. One and a half kilobytes are shown as \<^verbatim>\<open>2KB\<close>, without a decimal place, and
  \<open>2 ^ 40\<close> bytes as \<^verbatim>\<open>1.0TB\<close>.
\<close>

theorem format_size_counterexample:
  "format_size 1536 = Inr ''2KB'' \<and> format_size (2 ^ 40) = Inr ''1.0TB''"
  by code_simp

text \<open>
  Claim C7, amended. For a size \<open>n\<close> from 0 up to \<open>2 ^ 53\<close>, where the conversion to a float
  is exact: the \<^verbatim>\<open>size\<close> value is \<^verbatim>\<open>0B\<close> for 0; below \<open>1024 ^ 4\<close> it is \<open>n\<close> divided by
  the largest power of 1024 that is at most \<open>n\<close>, rounded to a whole number, ties to even,
  with the unit \<^verbatim>\<open>B\<close>, \<^verbatim>\<open>KB\<close>, \<^verbatim>\<open>MB\<close> or \<^verbatim>\<open>GB\<close>; from \<open>1024 ^ 4\<close> on it is
  \<open>n / 1024 ^ 4\<close> with one decimal place and the unit \<^verbatim>\<open>TB\<close>. The \<^verbatim>\<open>size_mb\<close> value is
  \<open>n / 1024 ^ 2\<close> with one decimal place.
\<close>

theorem format_size_closed_form:
  assumes "0 \<le> n" and "n < 2 ^ 53"
  shows "format_size n =
           Inr (if n = 0 then ''0B''
                else if n < 1024 then py_fixed 0 n 1 @ ''B''
                else if n < 1048576 then py_fixed 0 n 1024 @ ''KB''
                else if n < 1073741824 then py_fixed 0 n 1048576 @ ''MB''
                else if n < 1099511627776 then py_fixed 0 n 1073741824 @ ''GB''
                else py_fixed 1 n 1099511627776 @ ''TB'') \<and>
         size_mb n = Inr (py_fixed 1 n 1048576)"
proof -
  have f: "round_to_double 1024 n = Inr n" using assms by (rule round_to_double_exact) simp
  have g: "round_to_double 1044 n = Inr n" using assms by (rule round_to_double_exact) simp
  show ?thesis
    by (simp add: format_size_def size_mb_def f g)
qed

theorem format_size_closed_form_witness:
  "(0::int) \<le> 1536 \<and> (1536::int) < 2 ^ 53 \<and>
   format_size 1536 = Inr ''2KB'' \<and> size_mb 1536 = Inr ''0.0''"
proof -
  have whole: "py_fixed 0 1536 1024 = ''2''" by code_simp
  have tenth: "py_fixed 1 1536 1048576 = ''0.0''" by code_simp
  show ?thesis
    using format_size_closed_form [of 1536] whole tenth by simp
qed

section \<open>A failed render falls back and leaves the counter alone\<close>



section \<open>The counter token is not replaced and the render does not return\<close>

text \<open>
  Claim C1. The claim says that the counter written into the name goes 1, 2, 3 over repeated
  renders. On the pattern \<^verbatim>\<open>{counter}_{original}\<close> and the file \<^verbatim>\<open>movie.mp4\<close>, for every
  hash function, clock, manager and user: \<^verbatim>\<open>_process_counters\<close> returns the pattern with the
  token still in it, the name that the render builds is \<^verbatim>\<open>{counter}_movie.mp4\<close>, and the
  render never returns it, because the increment that follows waits forever for the lock of
  the database.
\<close>

theorem counter_token_not_substituted:
  "map_option fst (process_counters H other pm ''{counter}_{original}'' user_id) =
     Some ''{counter}_{original}'' \<and>
   map_option (map_sum id fst)
     (apply_pattern_name H e pm ''{counter}_{original}'' movie_file user_id []) =
     Some (Inr ''{counter}_movie.mp4'') \<and>
   apply_pattern H e pm ''{counter}_{original}'' movie_file user_id [] = None"
proof (intro conjI)
  obtain pm1 where pc: "process_counters H other pm ''{counter}_{original}'' user_id =
     Some (''{counter}_{original}'', pm1)"
    using plain_counters by blast
  then show "map_option fst (process_counters H other pm ''{counter}_{original}'' user_id) =
     Some ''{counter}_{original}''" by simp
  obtain pm2 where pc2: "process_counters H (format_other e) pm ''{counter}_{original}'' user_id =
     Some (''{counter}_{original}'', pm2)"
    using plain_counters by blast
  show "map_option (map_sum id fst)
     (apply_pattern_name H e pm ''{counter}_{original}'' movie_file user_id []) =
     Some (Inr ''{counter}_movie.mp4'')"
    by (simp add: apply_pattern_name_unfold [OF _ _ pc2, of _ "''1MB''" "''1.0''"]
          movie_fields movie_sizes movie_parts plain_randoms plain_substitution plain_clean)
  show "apply_pattern H e pm ''{counter}_{original}'' movie_file user_id [] = None"
    by (rule render_blocks [of _ "''1MB''" "''1.0''"]) (simp_all add: movie_fields movie_sizes)
qed


section \<open>A preview does not return\<close>

text \<open>
  Claim C2. The claim says that any number of previews leaves the counter of later renders
  alone. For every hash function, clock, manager, pattern and user, the preview of the
  default sample file never returns: the render inside it waits forever for the lock of the
  database, and the block that puts the cache back is never reached.
\<close>

theorem preview_never_returns:
  "get_pattern_preview H e pm pattern user_id None = None"
proof -
  have "apply_pattern H e pm pattern sample_file_info user_id [] = None"
    by (rule render_blocks [of _ "''150MB''" "''150.0''"])
       (simp_all add: sample_file_info_def sample_sizes)
  then show ?thesis by (simp add: get_pattern_preview_def)
qed


section \<open>The documented example is not rendered\<close>

text \<open>
  Claim C3. The claim says that the pattern \<^verbatim>\<open>{counter:03d}_{original}.{ext}\<close> on the file
  \<^verbatim>\<open>movie.mp4\<close> renders to \<^verbatim>\<open>001_movie.mp4\<close>. For every hash function, clock, manager and
  user, the name that the render builds is \<^verbatim>\<open>{counter_03d}_movie..mp4\<close>, with the counter
  token not replaced and the dot doubled, and the render never returns it.
\<close>

theorem render_example_not_produced:
  "map_option (map_sum id fst)
     (apply_pattern_name H e pm ''{counter:03d}_{original}.{ext}'' movie_file user_id []) =
     Some (Inr ''{counter_03d}_movie..mp4'') \<and>
   apply_pattern H e pm ''{counter:03d}_{original}.{ext}'' movie_file user_id [] = None"
proof (intro conjI)
  obtain pm2 where pc2:
    "process_counters H (format_other e) pm ''{counter:03d}_{original}.{ext}'' user_id =
       Some (''{counter:03d}_{original}.{ext}'', pm2)"
    using example_counters by blast
  show "map_option (map_sum id fst)
     (apply_pattern_name H e pm ''{counter:03d}_{original}.{ext}'' movie_file user_id []) =
     Some (Inr ''{counter_03d}_movie..mp4'')"
    by (simp add: apply_pattern_name_unfold [OF _ _ pc2, of _ "''1MB''" "''1.0''"]
          movie_fields movie_sizes movie_parts example_randoms example_substitution example_clean)
  show "apply_pattern H e pm ''{counter:03d}_{original}.{ext}'' movie_file user_id [] = None"
    by (rule render_blocks [of _ "''1MB''" "''1.0''"]) (simp_all add: movie_fields movie_sizes)
qed


section \<open>A render of an ordinary file yields no name\<close>

text \<open>
  Claim C6. The claim says that rendering a pattern without the extension variable on the
  file \<^verbatim>\<open>report.pdf\<close> yields a name that ends with \<^verbatim>\<open>.pdf\<close>. For every hash function,
  clock, manager and user, the name that the render of \<^verbatim>\<open>{original}_v2\<close> builds is
  \<^verbatim>\<open>report_v2.pdf\<close>, which ends with the extension, and the render never returns it.
\<close>

theorem render_yields_no_name:
  "map_option (map_sum id fst)
     (apply_pattern_name H e pm ''{original}_v2'' report_file user_id []) =
     Some (Inr ''report_v2.pdf'') \<and>
   apply_pattern H e pm ''{original}_v2'' report_file user_id [] = None"
proof (intro conjI)
  have pc: "process_counters H (format_other e) pm ''{original}_v2'' user_id =
     Some (''{original}_v2'', pm)"
    by (simp add: process_counters_def report_scans)
  show "map_option (map_sum id fst)
     (apply_pattern_name H e pm ''{original}_v2'' report_file user_id []) =
     Some (Inr ''report_v2.pdf'')"
    by (simp add: apply_pattern_name_unfold [OF _ _ pc, of _ "''2KB''" "''0.0''"]
          report_fields report_sizes report_parts process_random_variables_def report_scans
          report_substitution report_clean)
  show "apply_pattern H e pm ''{original}_v2'' report_file user_id [] = None"
    by (rule render_blocks [of _ "''2KB''" "''0.0''"]) (simp_all add: report_fields report_sizes)
qed

end
